theory Spec2Isabelle
  imports Main
begin

section \<open>Data model of the puzzle component (src/src/app.tsx)\<close>

text \<open>
  The component keeps its play state in \<open>useState\<close> cells and mutates it from pointer
  handlers, from a reset button, from two timers and from one effect. The embedding keeps
  every state cell of the engine as a record field, turns each handler into a function on
  that record, and makes the timers and the effect explicit as queues of pending
  callbacks that fire as separate events. Preact re-renders in a microtask after each
  handler, so every handler and every callback starts from the state its predecessor
  left; what a callback keeps from the render that created it (the \<open>targetPattern\<close> of
  a completion check, the \<open>level\<close> of an effect) is stored with it in the queue.
\<close>

abbreviation (input) GRID_SIZE :: nat where
  "GRID_SIZE \<equiv> 8"

text \<open>\<open>interface Position { x: number; y: number }\<close>; the fields are called \<open>px\<close> and
  \<open>py\<close> so that \<open>x\<close> and \<open>y\<close> stay usable as variables.\<close>

record Position =
  px :: int
  py :: int

text \<open>The only exception the engine code can raise: indexing \<open>undefined\<close> (a missing
  row of a grid).\<close>

datatype error = TypeError

text \<open>\<open>handleCellClick\<close> returns nothing; the tag records which of its return paths was
  taken: the early \<open>return\<close> or the fall-through with \<open>isValidMove\<close> false (rejected), the
  revert branch, or the extend branch.\<close>

datatype TouchResult = rejected | reverted | extended

text \<open>
  The state cells \<open>targetPattern\<close>, \<open>paintedPattern\<close>, \<open>currentStroke\<close>, \<open>startingPoint\<close>,
  \<open>isDrawing\<close>, \<open>level\<close>, \<open>isCompleted\<close>, and the callbacks that are scheduled but have
  not run yet:
  \<^item> \<open>checkTimers\<close>: the 50 ms timers of the extend branch, each with the \<open>targetPattern\<close>
    its closure holds and the \<open>newPattern\<close> it will test, oldest first;
  \<^item> \<open>advanceTimers\<close>: how many 2000 ms \<open>setLevel(prev + 1)\<close> timers are pending;
  \<^item> \<open>levelEffects\<close>: the pending runs of the \<open>[level]\<close> effect, each with the level of
    the render that scheduled it, oldest first.
  Grids are arrays of rows: \<open>g ! y ! x\<close> is the source's \<open>g[y][x]\<close>.
\<close>

record state =
  targetPattern :: "bool list list"
  paintedPattern :: "nat list list"
  currentStroke :: "Position list"
  startingPoint :: "Position option"
  isDrawing :: bool
  level :: int
  isCompleted :: bool
  checkTimers :: "(bool list list \<times> nat list list) list"
  advanceTimers :: nat
  levelEffects :: "int list"

text \<open>The values of the \<open>useState\<close> calls at mount; the \<open>[level]\<close> effect is pending.\<close>

definition init_state :: state where
  "init_state =
     \<lparr>targetPattern = [], paintedPattern = [], currentStroke = [], startingPoint = None,
      isDrawing = False, level = 1, isCompleted = False,
      checkTimers = [], advanceTimers = 0, levelEffects = [1]\<rparr>"

section \<open>Array access as JavaScript does it\<close>

text \<open>\<open>g[y][x]\<close> for non-negative indices: a missing row is \<open>undefined\<close>, and indexing
  it throws; a missing cell of an existing row reads as \<open>undefined\<close> (\<open>None\<close>).\<close>

definition lookup2 :: "'a list list \<Rightarrow> nat \<Rightarrow> nat \<Rightarrow> error + 'a option" where
  "lookup2 g y x =
     (if y < length g
      then Inr (if x < length (g ! y) then Some (g ! y ! x) else None)
      else Inl TypeError)"

text \<open>\<open>row[x] = v\<close>. Past the end JavaScript extends the array and leaves holes; a hole
  is written as \<open>0\<close> here. No row shorter than \<open>GRID_SIZE\<close> is ever built by the
  component, so this branch is never taken from \<open>init_state\<close>.\<close>

definition assign :: "nat list \<Rightarrow> nat \<Rightarrow> nat \<Rightarrow> nat list" where
  "assign row x v =
     (if x < length row then row[x := v]
      else row @ replicate (x - length row) 0 @ [v])"

definition store2 :: "nat list list \<Rightarrow> nat \<Rightarrow> nat \<Rightarrow> nat \<Rightarrow> error + nat list list" where
  "store2 g y x v =
     (if y < length g then Inr (g[y := assign (g ! y) x v]) else Inl TypeError)"

section \<open>generateLevel\<close>

text \<open>\<open>Array(GRID_SIZE).fill(null).map(() => Array(GRID_SIZE).fill(v))\<close>\<close>

definition blank :: "'a \<Rightarrow> 'a list list" where
  "blank v = replicate GRID_SIZE (replicate GRID_SIZE v)"

text \<open>\<open>pattern[y][x] = v\<close> on the freshly built grid; every index \<open>generateLevel\<close> writes
  is a loop variable or literal between 1 and 6.\<close>

definition set2 :: "'a list list \<Rightarrow> nat \<Rightarrow> nat \<Rightarrow> 'a \<Rightarrow> 'a list list" where
  "set2 p y x v = p[y := (p ! y)[x := v]]"

text \<open>The five branches of \<open>generateLevel\<close>: the pattern and the start point they build.
  Each \<open>for\<close> loop is a \<open>fold\<close> over its index range.\<close>

definition levelShape :: "int \<Rightarrow> bool list list \<times> Position" where
  "levelShape levelNum =
     (if levelNum = 1 then
        (let p1 = fold (\<lambda>y p. set2 p y 1 True) [1..<6] (blank False);
             p2 = fold (\<lambda>x p. set2 p 5 x True) [1..<6] p1
         in (p2, \<lparr>px = 1, py = 1\<rparr>))
      else if levelNum = 2 then
        (let p1 = fold (\<lambda>y p. fold (\<lambda>x q. set2 q y x True) [1..<7] p) [1..<7] (blank False);
             p2 = set2 p1 3 3 False;
             p3 = set2 p2 3 4 False;
             p4 = set2 p3 4 3 False;
             p5 = set2 p4 4 4 False
         in (p5, \<lparr>px = 1, py = 1\<rparr>))
      else if levelNum = 3 then
        (let p1 = fold (\<lambda>y p. set2 (set2 p y 3 True) y 4 True) [1..<7] (blank False);
             p2 = fold (\<lambda>x p. set2 (set2 p 3 x True) 4 x True) [1..<7] p1
         in (p2, \<lparr>px = 3, py = 1\<rparr>))
      else if levelNum = 4 then
        (let p1 = fold (\<lambda>x p. set2 (set2 (set2 p 1 x True) 3 x True) 5 x True) [1..<7]
                    (blank False);
             p2 = fold (\<lambda>y p. set2 (set2 p y 1 True) y 6 True) [1..<6] p1
         in (p2, \<lparr>px = 1, py = 1\<rparr>))
      else
        (let center = GRID_SIZE div 2;
             p1 = fold (\<lambda>y p. fold (\<lambda>x q.
                          (let distance = \<bar>int x - int center\<bar> + \<bar>int y - int center\<bar>
                           in if distance \<ge> 1 \<and> distance \<le> 3 then set2 q y x True else q))
                        [1..<7] p) [1..<7] (blank False);
             p2 = set2 p1 2 2 False;
             p3 = set2 p2 5 5 False
         in (p3, \<lparr>px = 1, py = int center\<rparr>)))"

text \<open>The six state setters at the end of \<open>generateLevel\<close>. Pending timers are not
  cancelled.\<close>

definition generateLevel :: "state \<Rightarrow> int \<Rightarrow> state" where
  "generateLevel s levelNum =
     (let (pattern, startPoint) = levelShape levelNum
      in s\<lparr>targetPattern := pattern,
           paintedPattern := blank 0,
           startingPoint := Some startPoint,
           currentStroke := [],
           isCompleted := False,
           isDrawing := False\<rparr>)"

section \<open>checkCompletion and areAdjacent\<close>

text \<open>The inner loop of \<open>checkCompletion\<close> for row \<open>y\<close>, over the remaining columns:
  \<open>targetPattern[y][x] && painted[y][x] === 0\<close> returns \<open>false\<close> at once. An
  \<open>undefined\<close> target cell is falsy; an \<open>undefined\<close> painted cell is not \<open>=== 0\<close>.\<close>

fun checkCells :: "bool list list \<Rightarrow> nat list list \<Rightarrow> nat \<Rightarrow> nat list \<Rightarrow> error + bool" where
  "checkCells tp painted y [] = Inr True"
| "checkCells tp painted y (x # xs) =
     (case lookup2 tp y x of
        Inl e \<Rightarrow> Inl e
      | Inr t \<Rightarrow>
          if t = Some True then
            (case lookup2 painted y x of
               Inl e \<Rightarrow> Inl e
             | Inr v \<Rightarrow> if v = Some 0 then Inr False else checkCells tp painted y xs)
          else checkCells tp painted y xs)"

fun checkRows :: "bool list list \<Rightarrow> nat list list \<Rightarrow> nat list \<Rightarrow> error + bool" where
  "checkRows tp painted [] = Inr True"
| "checkRows tp painted (y # ys) =
     (case checkCells tp painted y [0..<GRID_SIZE] of
        Inl e \<Rightarrow> Inl e
      | Inr b \<Rightarrow> if b then checkRows tp painted ys else Inr False)"

text \<open>\<open>checkCompletion\<close> reads \<open>targetPattern\<close> from its closure: the first argument.\<close>

definition checkCompletion :: "bool list list \<Rightarrow> nat list list \<Rightarrow> error + bool" where
  "checkCompletion tp painted = checkRows tp painted [0..<GRID_SIZE]"

definition areAdjacent :: "Position \<Rightarrow> Position \<Rightarrow> bool" where
  "areAdjacent pos1 pos2 =
     (let dx = \<bar>px pos1 - px pos2\<bar>;
          dy = \<bar>py pos1 - py pos2\<bar>
      in (dx = 1 \<and> dy = 0) \<or> (dx = 0 \<and> dy = 1))"

section \<open>handleCellClick\<close>

text \<open>The two nested clearing \<open>for\<close> statements of the revert branch:
  \<open>if (newPainted[sy][sx] > currentOrder) newPainted[sy][sx] = 0\<close>
  for \<open>sy\<close>, \<open>sx\<close> from 0 to \<open>GRID_SIZE - 1\<close>. An \<open>undefined\<close> cell compares false.\<close>

definition clearRow :: "nat \<Rightarrow> nat list \<Rightarrow> nat list" where
  "clearRow currentOrder row =
     fold (\<lambda>sx r. if sx < length r \<and> r ! sx > currentOrder then r[sx := 0] else r)
       [0..<GRID_SIZE] row"

fun clearRows :: "nat \<Rightarrow> nat list \<Rightarrow> nat list list \<Rightarrow> error + nat list list" where
  "clearRows currentOrder [] g = Inr g"
| "clearRows currentOrder (sy # sys) g =
     (if sy < length g
      then clearRows currentOrder sys (g[sy := clearRow currentOrder (g ! sy)])
      else Inl TypeError)"

definition clearAfter :: "nat \<Rightarrow> nat list list \<Rightarrow> error + nat list list" where
  "clearAfter currentOrder g = clearRows currentOrder [0..<GRID_SIZE] g"

text \<open>\<open>isValidMove\<close>: a \<open>null\<close> starting point is falsy.\<close>

definition isValidMove :: "state \<Rightarrow> int \<Rightarrow> int \<Rightarrow> bool" where
  "isValidMove s x y =
     (if length (currentStroke s) = 0
      then (case startingPoint s of
              None \<Rightarrow> False
            | Some sp \<Rightarrow> x = px sp \<and> y = py sp)
      else areAdjacent (last (currentStroke s)) \<lparr>px = x, py = y\<rparr>)"

text \<open>
  \<open>handleCellClick(x, y)\<close>. The guard short-circuits, so the grids are indexed only
  after the four bounds tests failed. On the extend branch the 50 ms timer is queued
  with the handler's \<open>targetPattern\<close> and the \<open>newPattern\<close> it built. An exception leaves
  the state as it was: no setter has run when one can be thrown.
\<close>

definition handleCellClick :: "state \<Rightarrow> int \<Rightarrow> int \<Rightarrow> error + (TouchResult \<times> state)" where
  "handleCellClick s x y =
     (if x < 0 \<or> x \<ge> int GRID_SIZE \<or> y < 0 \<or> y \<ge> int GRID_SIZE then Inr (rejected, s)
      else
        (case lookup2 (targetPattern s) (nat y) (nat x) of
           Inl e \<Rightarrow> Inl e
         | Inr t \<Rightarrow>
             if t \<noteq> Some True then Inr (rejected, s)
             else
               (case lookup2 (paintedPattern s) (nat y) (nat x) of
                  Inl e \<Rightarrow> Inl e
                | Inr currentOrder \<Rightarrow>
                    if (case currentOrder of None \<Rightarrow> False | Some k \<Rightarrow> k > 0) then
                      (let k = the currentOrder;
                           newStroke = take k (currentStroke s)
                       in case clearAfter k (paintedPattern s) of
                            Inl e \<Rightarrow> Inl e
                          | Inr newPainted \<Rightarrow>
                              Inr (reverted,
                                   s\<lparr>currentStroke := newStroke,
                                     paintedPattern := newPainted\<rparr>))
                    else if isValidMove s x y then
                      (let newStroke = currentStroke s @ [\<lparr>px = x, py = y\<rparr>];
                           newOrder = length newStroke
                       in case store2 (paintedPattern s) (nat y) (nat x) newOrder of
                            Inl e \<Rightarrow> Inl e
                          | Inr newPattern \<Rightarrow>
                              Inr (extended,
                                   s\<lparr>paintedPattern := newPattern,
                                     currentStroke := newStroke,
                                     checkTimers :=
                                       checkTimers s @ [(targetPattern s, newPattern)]\<rparr>))
                    else Inr (rejected, s))))"

section \<open>Pointer handlers, reset, timers and the effect\<close>

text \<open>The state a click leaves behind; an uncaught exception aborts the handler and
  changes nothing.\<close>

definition afterClick :: "state \<Rightarrow> int \<Rightarrow> int \<Rightarrow> state" where
  "afterClick s x y = (case handleCellClick s x y of Inl e \<Rightarrow> s | Inr (r, s') \<Rightarrow> s')"

text \<open>\<open>handlePointerDown\<close> and \<open>handlePointerMove\<close>, given the cell the pointer maps to
  (the \<open>Math.floor\<close> of the scaled offsets). Both return at once when \<open>isCompleted\<close> is
  set; \<open>handlePointerDown\<close> calls \<open>setIsDrawing(true)\<close> before the click.\<close>

definition handlePointerDown :: "state \<Rightarrow> int \<Rightarrow> int \<Rightarrow> state" where
  "handlePointerDown s x y =
     (if isCompleted s then s else (afterClick s x y)\<lparr>isDrawing := True\<rparr>)"

definition handlePointerMove :: "state \<Rightarrow> int \<Rightarrow> int \<Rightarrow> state" where
  "handlePointerMove s x y =
     (if \<not> isDrawing s \<or> isCompleted s then s else afterClick s x y)"

definition handlePointerUp :: "state \<Rightarrow> state" where
  "handlePointerUp s = s\<lparr>isDrawing := False\<rparr>"

definition resetLevel :: "state \<Rightarrow> state" where
  "resetLevel s = generateLevel s (level s)"

text \<open>The oldest 50 ms timer fires: \<open>if (checkCompletion(newPattern))\<close> sets
  \<open>isCompleted\<close> and starts the 2000 ms timer. An exception in the callback changes
  nothing.\<close>

definition checkTimeout :: "state \<Rightarrow> state" where
  "checkTimeout s =
     (case checkTimers s of
        [] \<Rightarrow> s
      | (tp, newPattern) # rest \<Rightarrow>
          (case checkCompletion tp newPattern of
             Inr True \<Rightarrow> s\<lparr>checkTimers := rest, isCompleted := True,
                          advanceTimers := advanceTimers s + 1\<rparr>
           | _ \<Rightarrow> s\<lparr>checkTimers := rest\<rparr>))"

text \<open>The oldest 2000 ms timer fires: \<open>setLevel((prev) => prev + 1)\<close>; the render that
  follows schedules the \<open>[level]\<close> effect.\<close>

definition advanceTimeout :: "state \<Rightarrow> state" where
  "advanceTimeout s =
     (if advanceTimers s = 0 then s
      else s\<lparr>advanceTimers := advanceTimers s - 1, level := level s + 1,
             levelEffects := levelEffects s @ [level s + 1]\<rparr>)"

text \<open>The oldest pending effect runs: \<open>generateLevel(level)\<close>.\<close>

definition runEffect :: "state \<Rightarrow> state" where
  "runEffect s =
     (case levelEffects s of
        [] \<Rightarrow> s
      | l # rest \<Rightarrow> generateLevel (s\<lparr>levelEffects := rest\<rparr>) l)"

datatype event =
    PointerDown int int
  | PointerMove int int
  | PointerUp
  | ResetClick
  | CheckTimeout
  | AdvanceTimeout
  | RunEffect

fun step :: "state \<Rightarrow> event \<Rightarrow> state" where
  "step s (PointerDown x y) = handlePointerDown s x y"
| "step s (PointerMove x y) = handlePointerMove s x y"
| "step s PointerUp = handlePointerUp s"
| "step s ResetClick = resetLevel s"
| "step s CheckTimeout = checkTimeout s"
| "step s AdvanceTimeout = advanceTimeout s"
| "step s RunEffect = runEffect s"

text \<open>The state after a sequence of events, from the mounted component.\<close>

definition run :: "event list \<Rightarrow> state" where
  "run evs = foldl step init_state evs"

section \<open>Well-formed sessions\<close>

text \<open>A grid as \<open>generateLevel\<close> builds it: \<open>GRID_SIZE\<close> rows of \<open>GRID_SIZE\<close> cells.\<close>

definition grid_ok :: "'a list list \<Rightarrow> bool" where
  "grid_ok g = (length g = GRID_SIZE \<and> list_all (\<lambda>row. length row = GRID_SIZE) g)"

text \<open>What the clearing pass does to one cell.\<close>

definition clearCell :: "nat \<Rightarrow> nat \<Rightarrow> nat" where
  "clearCell k v = (if v > k then 0 else v)"

text \<open>The \<open>i\<close>-th cell of the stroke lies in the grid, is a target cell and carries
  paint order \<open>i + 1\<close>.\<close>

definition strokeCellOk :: "state \<Rightarrow> nat \<Rightarrow> bool" where
  "strokeCellOk s i =
     (let c = currentStroke s ! i
      in 0 \<le> px c \<and> px c < int GRID_SIZE \<and> 0 \<le> py c \<and> py c < int GRID_SIZE \<and>
         targetPattern s ! nat (py c) ! nat (px c) \<and>
         paintedPattern s ! nat (py c) ! nat (px c) = Suc i)"

text \<open>A painted cell is the cell of the stroke at its paint order.\<close>

definition paintedCellOk :: "state \<Rightarrow> nat \<Rightarrow> nat \<Rightarrow> bool" where
  "paintedCellOk s y x =
     (let k = paintedPattern s ! y ! x
      in k = 0 \<or> (k \<le> length (currentStroke s) \<and>
                   currentStroke s ! (k - 1) = \<lparr>px = int x, py = int y\<rparr>))"

definition strokeIsPath :: "Position list \<Rightarrow> bool" where
  "strokeIsPath st = list_all (\<lambda>i. areAdjacent (st ! i) (st ! Suc i)) [0..<length st - 1]"

text \<open>The consistency of \<open>targetPattern\<close>, \<open>paintedPattern\<close>, \<open>currentStroke\<close> and
  \<open>startingPoint\<close> that every state of a level has; it is executable, so it can be
  evaluated on a concrete state.\<close>

definition session :: "state \<Rightarrow> bool" where
  "session s =
     (grid_ok (targetPattern s) \<and> grid_ok (paintedPattern s) \<and>
      list_all (strokeCellOk s) [0..<length (currentStroke s)] \<and>
      list_all (\<lambda>y. list_all (paintedCellOk s y) [0..<GRID_SIZE]) [0..<GRID_SIZE] \<and>
      strokeIsPath (currentStroke s) \<and>
      (currentStroke s = [] \<or> startingPoint s = Some (hd (currentStroke s))))"

text \<open>The state between mount and the first run of the effect: the arrays are still the
  empty ones of \<open>useState([])\<close>.\<close>

definition pre_mount :: "state \<Rightarrow> bool" where
  "pre_mount s =
     (targetPattern s = [] \<and> paintedPattern s = [] \<and> currentStroke s = [] \<and>
      startingPoint s = None)"

text \<open>A level as \<open>generateLevel\<close> leaves it, for any pattern and start point.\<close>

definition newSession :: "state \<Rightarrow> bool" where
  "newSession s =
     (grid_ok (targetPattern s) \<and> paintedPattern s = blank 0 \<and> currentStroke s = [])"

text \<open>A sequence of calls of \<open>handleCellClick\<close>, each on the state the previous one
  left.\<close>

definition afterTouches :: "state \<Rightarrow> (int \<times> int) list \<Rightarrow> state" where
  "afterTouches s cs = foldl (\<lambda>t (x, y). afterClick t x y) s cs"

text \<open>The completion test in the specification's words: every target cell has a
  positive paint order.\<close>

definition allTargetsPainted :: "bool list list \<Rightarrow> nat list list \<Rightarrow> bool" where
  "allTargetsPainted tp painted =
     (\<forall>y < GRID_SIZE. \<forall>x < GRID_SIZE. tp ! y ! x \<longrightarrow> painted ! y ! x > 0)"

text \<open>The pattern and start point on screen are the ones of the current level.\<close>

definition synced :: "state \<Rightarrow> bool" where
  "synced s =
     (targetPattern s = fst (levelShape (level s)) \<and>
      startingPoint s = Some (snd (levelShape (level s))))"

text \<open>The start point built by \<open>levelShape\<close> lies in the grid on a target cell.\<close>

definition startOk :: "bool list list \<times> Position \<Rightarrow> bool" where
  "startOk shape =
     (case shape of (pattern, c) \<Rightarrow>
        grid_ok pattern \<and> 0 \<le> px c \<and> px c < int GRID_SIZE \<and> 0 \<le> py c \<and> py c < int GRID_SIZE \<and>
        pattern ! nat (py c) ! nat (px c))"

text \<open>Every pending effect but the last is stale; the last one carries the current
  level, and when none is pending the pattern on screen is the current level's.\<close>

definition levelInv :: "state \<Rightarrow> bool" where
  "levelInv s =
     (if levelEffects s = [] then synced s else last (levelEffects s) = level s)"

section \<open>Concrete traces\<close>

text \<open>Level 1 is the L of column 1 and row 5, started at (1, 1). Three cells are painted
  here.\<close>

definition rewind_trace :: "event list" where
  "rewind_trace = [RunEffect, PointerDown 1 1, PointerMove 1 2, PointerMove 1 3]"

text \<open>Level 1 with eight of its nine cells painted; (5, 5) is left.\<close>

definition level1_eight :: "event list" where
  "level1_eight = [RunEffect, PointerDown 1 1, PointerMove 1 2, PointerMove 1 3, PointerMove 1 4,
     PointerMove 1 5, PointerMove 2 5, PointerMove 3 5, PointerMove 4 5]"

text \<open>Level 1 played cell by cell, each touch followed 50 ms later by its completion
  check, up to the touch on the ninth and last target cell (5, 5), whose check is still
  pending.\<close>

definition completing_trace :: "event list" where
  "completing_trace =
     [RunEffect,
      PointerDown 1 1, CheckTimeout, PointerMove 1 2, CheckTimeout,
      PointerMove 1 3, CheckTimeout, PointerMove 1 4, CheckTimeout,
      PointerMove 1 5, CheckTimeout, PointerMove 2 5, CheckTimeout,
      PointerMove 3 5, CheckTimeout, PointerMove 4 5, CheckTimeout,
      PointerMove 5 5]"

section \<open>Iteration over well-formed grids\<close>

lemma grid_ok_row: "grid_ok g \<Longrightarrow> y < GRID_SIZE \<Longrightarrow> length (g ! y) = GRID_SIZE"
  by (simp add: grid_ok_def list_all_length)

lemma lookup2_ok: "grid_ok g \<Longrightarrow> y < GRID_SIZE \<Longrightarrow> x < GRID_SIZE \<Longrightarrow> lookup2 g y x = Inr (Some (g ! y ! x))"
  by (simp add: lookup2_def grid_ok_def list_all_length)

lemma clearRow_fold:
  "n \<le> length row \<Longrightarrow>
   fold (\<lambda>sx r. if sx < length r \<and> r ! sx > k then r[sx := 0] else r) [0..<n] row
     = map (clearCell k) (take n row) @ drop n row"
proof (induction n)
  case 0
  then show ?case by simp
next
  case (Suc n)
  then have n: "n < length row" by simp
  have split: "drop n row = row ! n # drop (Suc n) row"
    using n by (simp add: Cons_nth_drop_Suc)
  have tk: "take (Suc n) row = take n row @ [row ! n]"
    using n by (simp add: take_Suc_conv_app_nth)
  show ?case
    using Suc n by (simp add: split tk clearCell_def nth_append list_update_append)
qed

lemma clearRow_ok: "length row = GRID_SIZE \<Longrightarrow> clearRow k row = map (clearCell k) row"
  unfolding clearRow_def using clearRow_fold [of 8 row k] by simp

lemma clearRows_append:
  "clearRows k (a @ b) g = (case clearRows k a g of Inl e \<Rightarrow> Inl e | Inr g' \<Rightarrow> clearRows k b g')"
  by (induction a arbitrary: g) auto

lemma clearRows_upt:
  "n \<le> length g \<Longrightarrow> clearRows k [0..<n] g = Inr (map (clearRow k) (take n g) @ drop n g)"
proof (induction n)
  case 0
  then show ?case by simp
next
  case (Suc n)
  then have n: "n < length g" by simp
  have split: "drop n g = g ! n # drop (Suc n) g"
    using n by (simp add: Cons_nth_drop_Suc)
  have tk: "take (Suc n) g = take n g @ [g ! n]"
    using n by (simp add: take_Suc_conv_app_nth)
  show ?case
    using Suc n by (simp add: clearRows_append split tk nth_append list_update_append)
qed

lemma clearAfter_ok: "grid_ok g \<Longrightarrow> clearAfter k g = Inr (map (map (clearCell k)) g)"
proof -
  assume g: "grid_ok g"
  then have "clearAfter k g = Inr (map (clearRow k) g)"
    unfolding clearAfter_def using clearRows_upt [of 8 g k] by (simp add: grid_ok_def)
  moreover have "map (clearRow k) g = map (map (clearCell k)) g"
    using g by (intro map_cong) (auto simp: grid_ok_def list_all_iff clearRow_ok)
  ultimately show ?thesis by simp
qed

lemma checkCells_ok:
  "y < length tp \<Longrightarrow> y < length painted \<Longrightarrow>
   \<forall>x \<in> set xs. x < length (tp ! y) \<and> x < length (painted ! y) \<Longrightarrow>
   checkCells tp painted y xs = Inr (\<forall>x \<in> set xs. tp ! y ! x \<longrightarrow> painted ! y ! x \<noteq> 0)"
  by (induction xs) (auto simp: lookup2_def)

lemma checkRows_ok:
  "grid_ok tp \<Longrightarrow> grid_ok painted \<Longrightarrow> \<forall>y \<in> set ys. y < GRID_SIZE \<Longrightarrow>
   checkRows tp painted ys = Inr (\<forall>y \<in> set ys. \<forall>x < GRID_SIZE. tp ! y ! x \<longrightarrow> painted ! y ! x \<noteq> 0)"
proof (induction ys)
  case Nil
  then show ?case by simp
next
  case (Cons y ys)
  then have y: "y < GRID_SIZE" by simp
  have "checkCells tp painted y [0..<GRID_SIZE] =
      Inr (\<forall>x \<in> set [0..<GRID_SIZE]. tp ! y ! x \<longrightarrow> painted ! y ! x \<noteq> 0)"
    using Cons.prems y by (intro checkCells_ok) (auto simp: grid_ok_def list_all_length)
  then show ?case using Cons by auto
qed

lemma checkCompletion_ok:
  "grid_ok tp \<Longrightarrow> grid_ok painted \<Longrightarrow>
   checkCompletion tp painted = Inr (\<forall>y < GRID_SIZE. \<forall>x < GRID_SIZE. tp ! y ! x \<longrightarrow> painted ! y ! x \<noteq> 0)"
  unfolding checkCompletion_def using checkRows_ok [of tp painted "[0..<GRID_SIZE]"] by auto

lemma session_iff:
  "session s \<longleftrightarrow>
     grid_ok (targetPattern s) \<and> grid_ok (paintedPattern s) \<and>
     (\<forall>i < length (currentStroke s). strokeCellOk s i) \<and>
     (\<forall>y < GRID_SIZE. \<forall>x < GRID_SIZE. paintedCellOk s y x) \<and>
     (\<forall>i. Suc i < length (currentStroke s) \<longrightarrow>
          areAdjacent (currentStroke s ! i) (currentStroke s ! Suc i)) \<and>
     (currentStroke s = [] \<or> startingPoint s = Some (hd (currentStroke s)))"
  by (auto simp: session_def strokeIsPath_def list_all_iff)

lemma handleCellClick_outside:
  "x < 0 \<or> x \<ge> int GRID_SIZE \<or> y < 0 \<or> y \<ge> int GRID_SIZE \<Longrightarrow>
   handleCellClick s x y = Inr (rejected, s)"
  by (simp add: handleCellClick_def)

lemma store2_ok:
  "grid_ok g \<Longrightarrow> y < GRID_SIZE \<Longrightarrow> x < GRID_SIZE \<Longrightarrow>
   store2 g y x v = Inr (g[y := (g ! y)[x := v]])"
  by (simp add: store2_def assign_def grid_ok_def list_all_length)

lemma handleCellClick_inside:
  assumes "grid_ok (targetPattern s)" "grid_ok (paintedPattern s)"
    and "0 \<le> x" "x < int GRID_SIZE" "0 \<le> y" "y < int GRID_SIZE"
  shows "handleCellClick s x y = Inr
     (if \<not> targetPattern s ! nat y ! nat x then (rejected, s)
      else if paintedPattern s ! nat y ! nat x > 0 then
        (reverted,
         s\<lparr>currentStroke := take (paintedPattern s ! nat y ! nat x) (currentStroke s),
           paintedPattern :=
             map (map (clearCell (paintedPattern s ! nat y ! nat x))) (paintedPattern s)\<rparr>)
      else if isValidMove s x y then
        (extended,
         s\<lparr>paintedPattern :=
             (paintedPattern s)[nat y := (paintedPattern s ! nat y)
                                  [nat x := Suc (length (currentStroke s))]],
           currentStroke := currentStroke s @ [\<lparr>px = x, py = y\<rparr>],
           checkTimers := checkTimers s @
             [(targetPattern s,
               (paintedPattern s)[nat y := (paintedPattern s ! nat y)
                                    [nat x := Suc (length (currentStroke s))]])]\<rparr>)
      else (rejected, s))"
proof -
  have ny: "nat y < GRID_SIZE" and nx: "nat x < GRID_SIZE" using assms by auto
  show ?thesis
    using assms(3-6)
    by (simp add: handleCellClick_def lookup2_ok [OF assms(1) ny nx]
        lookup2_ok [OF assms(2) ny nx] clearAfter_ok [OF assms(2)]
        store2_ok [OF assms(2) ny nx] Let_def)
qed

section \<open>A click preserves the session invariant\<close>

lemma grid_ok_map: "grid_ok g \<Longrightarrow> grid_ok (map (map f) g)"
  by (simp add: grid_ok_def list_all_iff)

lemma grid_ok_update:
  "grid_ok g \<Longrightarrow> y < GRID_SIZE \<Longrightarrow> grid_ok (g[y := (g ! y)[x := v]])"
  by (auto simp: grid_ok_def list_all_length nth_list_update)

lemma nth_map_map:
  "grid_ok g \<Longrightarrow> y < GRID_SIZE \<Longrightarrow> x < GRID_SIZE \<Longrightarrow> map (map f) g ! y ! x = f (g ! y ! x)"
  by (simp add: grid_ok_def list_all_length)

lemma nth_update2:
  "grid_ok g \<Longrightarrow> y < GRID_SIZE \<Longrightarrow> x < GRID_SIZE \<Longrightarrow> y' < GRID_SIZE \<Longrightarrow> x' < GRID_SIZE \<Longrightarrow>
   g[y := (g ! y)[x := v]] ! y' ! x' = (if y' = y \<and> x' = x then v else g ! y' ! x')"
  by (auto simp: grid_ok_def list_all_length nth_list_update)

lemma session_revert:
  assumes s: "session s" and y: "y < GRID_SIZE" and x: "x < GRID_SIZE"
    and k: "paintedPattern s ! y ! x = k" "k > 0"
  shows "session (s\<lparr>currentStroke := take k (currentStroke s),
                    paintedPattern := map (map (clearCell k)) (paintedPattern s)\<rparr>)"
    (is "session ?s'")
proof -
  note S = s [unfolded session_iff]
  have gp: "grid_ok (paintedPattern s)" using S by simp
  have "paintedCellOk s y x" using S y x by simp
  then have kle: "k \<le> length (currentStroke s)"
    using k by (simp add: paintedCellOk_def Let_def)
  have len: "length (currentStroke ?s') = k" using kle by simp
  have a: "\<forall>i < length (currentStroke ?s'). strokeCellOk ?s' i"
  proof (intro allI impI)
    fix i assume "i < length (currentStroke ?s')"
    then have i: "i < k" using len by simp
    then have ok: "strokeCellOk s i" using S kle by auto
    then show "strokeCellOk ?s' i"
      using i gp by (auto simp: strokeCellOk_def Let_def nth_map_map clearCell_def)
  qed
  have b: "\<forall>y < GRID_SIZE. \<forall>x < GRID_SIZE. paintedCellOk ?s' y x"
  proof (intro allI impI)
    fix y' x' :: nat assume y': "y' < GRID_SIZE" and x': "x' < GRID_SIZE"
    have ok: "paintedCellOk s y' x'" using S y' x' by simp
    show "paintedCellOk ?s' y' x'"
    proof (cases "paintedPattern s ! y' ! x' = 0 \<or> paintedPattern s ! y' ! x' > k")
      case True
      then show ?thesis
        by (auto simp: paintedCellOk_def nth_map_map [OF gp y' x'] clearCell_def)
    next
      case False
      then have "paintedPattern s ! y' ! x' - 1 < k" by arith
      then have "take k (currentStroke s) ! (paintedPattern s ! y' ! x' - 1) =
                 currentStroke s ! (paintedPattern s ! y' ! x' - 1)"
        by simp
      then show ?thesis
        using ok kle False
        by (simp add: paintedCellOk_def nth_map_map [OF gp y' x'] clearCell_def)
    qed
  qed
  have c: "\<forall>i. Suc i < length (currentStroke ?s') \<longrightarrow>
              areAdjacent (currentStroke ?s' ! i) (currentStroke ?s' ! Suc i)"
    using S by auto
  have d: "currentStroke ?s' = [] \<or> startingPoint ?s' = Some (hd (currentStroke ?s'))"
    using S k kle by (cases "currentStroke s") auto
  show ?thesis
    unfolding session_iff using S a b c d by (simp add: grid_ok_map)
qed

lemma session_extend:
  assumes s: "session s" and x: "0 \<le> x" "x < int GRID_SIZE" and y: "0 \<le> y" "y < int GRID_SIZE"
    and t: "targetPattern s ! nat y ! nat x"
    and z: "paintedPattern s ! nat y ! nat x = 0"
    and v: "isValidMove s x y"
  shows "session (s\<lparr>paintedPattern :=
             (paintedPattern s)[nat y := (paintedPattern s ! nat y)
                                  [nat x := Suc (length (currentStroke s))]],
           currentStroke := currentStroke s @ [\<lparr>px = x, py = y\<rparr>],
           checkTimers := ts\<rparr>)"
    (is "session ?s'")
proof -
  note S = s [unfolded session_iff]
  have gp: "grid_ok (paintedPattern s)" using S by simp
  have ny: "nat y < GRID_SIZE" and nx: "nat x < GRID_SIZE" using x y by auto
  let ?n = "length (currentStroke s)"
  have a: "\<forall>i < length (currentStroke ?s'). strokeCellOk ?s' i"
  proof (intro allI impI)
    fix i assume i: "i < length (currentStroke ?s')"
    show "strokeCellOk ?s' i"
    proof (cases "i < ?n")
      case True
      then have ok: "strokeCellOk s i" using S by simp
      then show ?thesis
        using True z 
        by (auto simp: strokeCellOk_def Let_def nth_append nth_update2 [OF gp ny nx])
    next
      case False
      then have "i = ?n" using i by simp
      then show ?thesis
        using x y t by (simp add: strokeCellOk_def nth_update2 [OF gp ny nx ny nx])
    qed
  qed
  have b: "\<forall>y < GRID_SIZE. \<forall>x < GRID_SIZE. paintedCellOk ?s' y x"
  proof (intro allI impI)
    fix y' x' :: nat assume y': "y' < GRID_SIZE" and x': "x' < GRID_SIZE"
    have ok: "paintedCellOk s y' x'" using S y' x' by simp
    show "paintedCellOk ?s' y' x'"
    proof (cases "y' = nat y \<and> x' = nat x")
      case True
      then show ?thesis
        using x y by (simp add: paintedCellOk_def nth_update2 [OF gp ny nx ny nx])
    next
      case False
      then show ?thesis
        using ok by (auto simp: paintedCellOk_def Let_def nth_update2 [OF gp ny nx y' x'] nth_append)
    qed
  qed
  have c: "\<forall>i. Suc i < length (currentStroke ?s') \<longrightarrow>
              areAdjacent (currentStroke ?s' ! i) (currentStroke ?s' ! Suc i)"
  proof (intro allI impI)
    fix i assume i: "Suc i < length (currentStroke ?s')"
    show "areAdjacent (currentStroke ?s' ! i) (currentStroke ?s' ! Suc i)"
    proof (cases "Suc i < ?n")
      case True
      then show ?thesis using S by (simp add: nth_append)
    next
      case False
      then have e: "Suc i = ?n" using i by simp
      then have ne: "currentStroke s \<noteq> []" by auto
      have "length (currentStroke s) - 1 = i" using e by simp
      then have "last (currentStroke s) = currentStroke s ! i"
        using ne by (simp add: last_conv_nth)
      then show ?thesis
        using v e ne by (simp add: isValidMove_def nth_append)
    qed
  qed
  have d: "currentStroke ?s' = [] \<or> startingPoint ?s' = Some (hd (currentStroke ?s'))"
    using S v by (cases "currentStroke s") (auto simp: isValidMove_def split: option.splits)
  show ?thesis
    unfolding session_iff using S a b c d ny by (simp add: grid_ok_update)
qed

lemma session_click:
  assumes "session s"
  shows "\<exists>r s'. handleCellClick s x y = Inr (r, s') \<and> session s'"
proof (cases "x < 0 \<or> x \<ge> int GRID_SIZE \<or> y < 0 \<or> y \<ge> int GRID_SIZE")
  case True
  then show ?thesis using assms by (simp add: handleCellClick_outside)
next
  case False
  then have x: "0 \<le> x" "x < int GRID_SIZE" and y: "0 \<le> y" "y < int GRID_SIZE" by auto
  have g: "grid_ok (targetPattern s)" "grid_ok (paintedPattern s)"
    using assms by (simp_all add: session_def)
  have ny: "nat y < GRID_SIZE" and nx: "nat x < GRID_SIZE" using x y by auto
  show ?thesis
    using assms session_extend [OF assms x y] session_revert [OF assms ny nx]
    by (simp add: handleCellClick_inside [OF g x y])
qed

section \<open>Revert\<close>

lemma session_painted_le:
  assumes "session s" "y < GRID_SIZE" "x < GRID_SIZE" "paintedPattern s ! y ! x > 0"
  shows "paintedPattern s ! y ! x \<le> length (currentStroke s) \<and>
         currentStroke s ! (paintedPattern s ! y ! x - 1) = \<lparr>px = int x, py = int y\<rparr> \<and>
         targetPattern s ! y ! x"
proof -
  note S = assms(1) [unfolded session_iff]
  have "paintedCellOk s y x" using S assms(2,3) by simp
  then have a: "paintedPattern s ! y ! x \<le> length (currentStroke s)"
    and b: "currentStroke s ! (paintedPattern s ! y ! x - 1) = \<lparr>px = int x, py = int y\<rparr>"
    using assms(4) by (simp_all add: paintedCellOk_def Let_def)
  have "paintedPattern s ! y ! x - 1 < length (currentStroke s)" using a assms(4) by arith
  then have "strokeCellOk s (paintedPattern s ! y ! x - 1)" using S by simp
  then have "targetPattern s ! y ! x" using b by (simp add: strokeCellOk_def)
  then show ?thesis using a b by simp
qed

text \<open>
  Claim C1. In a session, touching a cell whose paint order is \<open>k \<ge> 1\<close> takes the
  revert branch: \<open>k\<close> is at most the length of the stroke, the new stroke is the prefix
  of length \<open>k\<close> of the old one and ends at the touched cell, every cell whose order
  exceeded \<open>k\<close> is cleared to 0, every other cell keeps its order, and the touched cell
  keeps order \<open>k\<close>. Nothing else changes and no completion check is scheduled.
\<close>

theorem revert_truncates_stroke:
  assumes s: "session s"
    and x: "0 \<le> x" "x < int GRID_SIZE" and y: "0 \<le> y" "y < int GRID_SIZE"
    and k: "paintedPattern s ! nat y ! nat x = k" "1 \<le> k"
  shows "\<exists>s'. handleCellClick s x y = Inr (reverted, s') \<and>
           k \<le> length (currentStroke s) \<and>
           currentStroke s' = take k (currentStroke s) \<and>
           length (currentStroke s') = k \<and>
           last (currentStroke s') = \<lparr>px = x, py = y\<rparr> \<and>
           paintedPattern s' =
             map (map (\<lambda>v. if v > k then 0 else v)) (paintedPattern s) \<and>
           (\<forall>y' < GRID_SIZE. \<forall>x' < GRID_SIZE.
              paintedPattern s' ! y' ! x' =
                (if paintedPattern s ! y' ! x' > k then 0 else paintedPattern s ! y' ! x')) \<and>
           paintedPattern s' ! nat y ! nat x = k \<and>
           targetPattern s' = targetPattern s \<and> startingPoint s' = startingPoint s \<and>
           checkTimers s' = checkTimers s \<and> isCompleted s' = isCompleted s"
proof -
  have g: "grid_ok (targetPattern s)" "grid_ok (paintedPattern s)"
    using s by (simp_all add: session_def)
  have ny: "nat y < GRID_SIZE" and nx: "nat x < GRID_SIZE" using x y by auto
  have pos: "paintedPattern s ! nat y ! nat x > 0" using k by simp
  note P = session_painted_le [OF s ny nx pos]
  have kle: "k \<le> length (currentStroke s)" using P k by simp
  have cell: "currentStroke s ! (k - 1) = \<lparr>px = x, py = y\<rparr>" using P k x y by simp
  have tgt: "targetPattern s ! nat y ! nat x" using P by simp
  let ?s' = "s\<lparr>currentStroke := take k (currentStroke s),
               paintedPattern := map (map (clearCell k)) (paintedPattern s)\<rparr>"
  have click: "handleCellClick s x y = Inr (reverted, ?s')"
    using tgt pos k by (simp add: handleCellClick_inside [OF g x y])
  have ne: "take k (currentStroke s) \<noteq> []" using k kle by auto
  have lst: "last (take k (currentStroke s)) = \<lparr>px = x, py = y\<rparr>"
    using ne kle k cell by (simp add: last_conv_nth)
  have cc: "clearCell k = (\<lambda>v. if v > k then 0 else v)"
    by (rule ext) (simp add: clearCell_def)
  have cells: "\<forall>y' < GRID_SIZE. \<forall>x' < GRID_SIZE.
      paintedPattern ?s' ! y' ! x' =
        (if paintedPattern s ! y' ! x' > k then 0 else paintedPattern s ! y' ! x')"
    using g(2) by (simp add: nth_map_map clearCell_def)
  have own: "paintedPattern ?s' ! nat y ! nat x = k"
    using cells ny nx k by simp
  show ?thesis
    using click kle lst cc cells own by (intro exI [of _ ?s']) simp
qed

theorem revert_truncates_stroke_witness:
  "session (run rewind_trace) \<and> paintedPattern (run rewind_trace) ! nat 2 ! nat 1 = 2 \<and>
   (\<exists>s'. handleCellClick (run rewind_trace) 1 2 = Inr (reverted, s') \<and>
      currentStroke s' = take 2 (currentStroke (run rewind_trace)) \<and>
      last (currentStroke s') = \<lparr>px = 1, py = 2\<rparr> \<and>
      paintedPattern s' ! nat 2 ! nat 1 = 2)"
proof -
  have h: "session (run rewind_trace)"
    unfolding rewind_trace_def by code_simp
  have k: "paintedPattern (run rewind_trace) ! nat 2 ! nat 1 = 2"
    unfolding rewind_trace_def by code_simp
  show ?thesis
    using h k revert_truncates_stroke [OF h, of 1 2 2, OF _ _ _ _ k] by auto
qed

section \<open>What a click leaves alone\<close>

lemma handleCellClick_frame:
  "handleCellClick s x y = Inr (r, s') \<Longrightarrow>
   targetPattern s' = targetPattern s \<and> startingPoint s' = startingPoint s \<and>
   level s' = level s \<and> levelEffects s' = levelEffects s \<and>
   isCompleted s' = isCompleted s \<and> isDrawing s' = isDrawing s \<and>
   advanceTimers s' = advanceTimers s"
  by (auto simp: handleCellClick_def Let_def split: if_splits sum.splits option.splits)

lemma handleCellClick_rejected_same:
  "handleCellClick s x y = Inr (rejected, s') \<Longrightarrow> s' = s"
  by (auto simp: handleCellClick_def Let_def split: if_splits sum.splits option.splits)

lemma session_empty_stroke_unpainted:
  assumes "session s" "currentStroke s = []" "y < GRID_SIZE" "x < GRID_SIZE"
  shows "paintedPattern s ! y ! x = 0"
proof -
  have "paintedCellOk s y x" using assms by (simp add: session_iff)
  then show ?thesis using assms(2) by (auto simp: paintedCellOk_def Let_def)
qed

section \<open>Totality, rejection and the first move\<close>

text \<open>
  On the grids that \<open>generateLevel\<close> builds, \<open>handleCellClick\<close> returns for every pair
  of integer coordinates and raises nothing. Coordinates that are negative or at least
  \<open>GRID_SIZE\<close> take the early return with the state unchanged, and they do so in every
  state \<open>t\<close> whatever its arrays are, because the bounds are tested before any array is
  indexed.
\<close>

lemma handleCellClick_total:
  assumes "grid_ok (targetPattern s)" "grid_ok (paintedPattern s)"
  shows "(\<exists>r s'. handleCellClick s x y = Inr (r, s')) \<and>
         (x < 0 \<or> x \<ge> int GRID_SIZE \<or> y < 0 \<or> y \<ge> int GRID_SIZE \<longrightarrow>
            handleCellClick s x y = Inr (rejected, s) \<and>
            handleCellClick t x y = Inr (rejected, t))"
proof (cases "x < 0 \<or> x \<ge> int GRID_SIZE \<or> y < 0 \<or> y \<ge> int GRID_SIZE")
  case True
  then show ?thesis by (simp add: handleCellClick_outside)
next
  case False
  then have "0 \<le> x" "x < int GRID_SIZE" "0 \<le> y" "y < int GRID_SIZE" by auto
  from handleCellClick_inside [OF assms this] False show ?thesis by simp
qed

lemma handleCellClick_total_example:
  "grid_ok (targetPattern (run [RunEffect])) \<and> grid_ok (paintedPattern (run [RunEffect])) \<and>
   (\<exists>r s'. handleCellClick (run [RunEffect]) (- 1) 8 = Inr (r, s')) \<and>
   handleCellClick (run [RunEffect]) (- 1) 8 = Inr (rejected, run [RunEffect]) \<and>
   handleCellClick init_state (- 1) 8 = Inr (rejected, init_state)"
proof -
  have a: "grid_ok (targetPattern (run [RunEffect]))" by code_simp
  have b: "grid_ok (paintedPattern (run [RunEffect]))" by code_simp
  show ?thesis
    using a b handleCellClick_total [OF a b, of "- 1" 8 init_state] by simp
qed

text \<open>
  Claim C9. The touch operation is not total. Between mount and the first run of the
  level effect \<open>targetPattern\<close> is still the empty array of \<open>useState([])\<close>. For a
  cell inside the grid the four bounds tests pass, and \<open>targetPattern[y][x]\<close> then
  indexes the missing row: \<open>handleCellClick\<close> raises a \<open>TypeError\<close>, at (0, 0) as at
  (7, 7). The render path (\<open>getCellType\<close> and the grid cells) tests
  \<open>targetPattern[y]\<close> before it indexes the row; \<open>handleCellClick\<close> does not.
\<close>

theorem handleCellClick_raises_before_first_level:
  "targetPattern init_state = [] \<and>
   handleCellClick init_state 0 0 = Inl TypeError \<and>
   handleCellClick (run []) 0 0 = Inl TypeError \<and>
   handleCellClick (run [PointerUp]) 7 7 = Inl TypeError"
  by code_simp

text \<open>
  Claim C3. In a session with an empty stroke, a touch on a target cell that is not the
  start point is rejected and leaves the state as it was; and whenever a touch leaves a
  non-empty stroke, the touched cell is the start point, the touch extended the stroke,
  and the stroke is that single cell.
\<close>

theorem first_touch_must_be_start:
  assumes s: "session s" and e: "currentStroke s = []"
  shows "(0 \<le> x \<and> x < int GRID_SIZE \<and> 0 \<le> y \<and> y < int GRID_SIZE \<and>
          targetPattern s ! nat y ! nat x \<and> startingPoint s \<noteq> Some \<lparr>px = x, py = y\<rparr>
            \<longrightarrow> handleCellClick s x y = Inr (rejected, s)) \<and>
         (\<forall>r s'. handleCellClick s x y = Inr (r, s') \<and> currentStroke s' \<noteq> []
            \<longrightarrow> startingPoint s = Some \<lparr>px = x, py = y\<rparr> \<and> r = extended \<and>
                currentStroke s' = [\<lparr>px = x, py = y\<rparr>])"
proof (cases "x < 0 \<or> x \<ge> int GRID_SIZE \<or> y < 0 \<or> y \<ge> int GRID_SIZE")
  case True
  then show ?thesis using e by (auto simp: handleCellClick_outside)
next
  case False
  then have x: "0 \<le> x" "x < int GRID_SIZE" and y: "0 \<le> y" "y < int GRID_SIZE" by auto
  have g: "grid_ok (targetPattern s)" "grid_ok (paintedPattern s)"
    using s by (simp_all add: session_def)
  have z: "paintedPattern s ! nat y ! nat x = 0"
    using session_empty_stroke_unpainted [OF s e] x y by simp
  have v: "isValidMove s x y \<longleftrightarrow> startingPoint s = Some \<lparr>px = x, py = y\<rparr>"
    using e by (auto simp: isValidMove_def split: option.splits)
  show ?thesis
    using e z v by (auto simp: handleCellClick_inside [OF g x y])
qed

theorem first_touch_must_be_start_witness:
  "session (run [RunEffect]) \<and> currentStroke (run [RunEffect]) = [] \<and>
   targetPattern (run [RunEffect]) ! nat 2 ! nat 1 \<and>
   startingPoint (run [RunEffect]) \<noteq> Some \<lparr>px = 1, py = 2\<rparr> \<and>
   handleCellClick (run [RunEffect]) 1 2 = Inr (rejected, run [RunEffect])"
proof -
  have a: "session (run [RunEffect])" by code_simp
  have b: "currentStroke (run [RunEffect]) = []" by code_simp
  have c: "targetPattern (run [RunEffect]) ! nat 2 ! nat 1" by code_simp
  have d: "startingPoint (run [RunEffect]) \<noteq> Some \<lparr>px = 1, py = 2\<rparr>" by code_simp
  show ?thesis
    using a b c d first_touch_must_be_start [OF a b, of 1 2] by simp
qed

text \<open>
  Claim C6. In a session, a touch outside the grid, or on a cell that is not a target, or
  on an unpainted cell that is not adjacent to the last cell of a non-empty stroke, or on
  a cell other than the start point while the stroke is empty, is rejected and returns
  the very same state. In any state at all, a rejected touch returns the state unchanged.
\<close>

theorem rejected_touch_leaves_state:
  assumes s: "session s"
    and c: "x < 0 \<or> x \<ge> int GRID_SIZE \<or> y < 0 \<or> y \<ge> int GRID_SIZE \<or>
            \<not> targetPattern s ! nat y ! nat x \<or>
            (paintedPattern s ! nat y ! nat x = 0 \<and> currentStroke s \<noteq> [] \<and>
               \<not> areAdjacent (last (currentStroke s)) \<lparr>px = x, py = y\<rparr>) \<or>
            (currentStroke s = [] \<and> startingPoint s \<noteq> Some \<lparr>px = x, py = y\<rparr>)"
  shows "handleCellClick s x y = Inr (rejected, s) \<and>
         (\<forall>t t'. handleCellClick t x y = Inr (rejected, t') \<longrightarrow> t' = t)"
proof (cases "x < 0 \<or> x \<ge> int GRID_SIZE \<or> y < 0 \<or> y \<ge> int GRID_SIZE")
  case True
  then show ?thesis using handleCellClick_rejected_same by (auto simp: handleCellClick_outside)
next
  case False
  then have x: "0 \<le> x" "x < int GRID_SIZE" and y: "0 \<le> y" "y < int GRID_SIZE" by auto
  have g: "grid_ok (targetPattern s)" "grid_ok (paintedPattern s)"
    using s by (simp_all add: session_def)
  have z: "currentStroke s = [] \<Longrightarrow> paintedPattern s ! nat y ! nat x = 0"
    using session_empty_stroke_unpainted [OF s] x y by simp
  have "handleCellClick s x y = Inr (rejected, s)"
    using c False z
    by (auto simp: handleCellClick_inside [OF g x y] isValidMove_def split: option.splits)
  then show ?thesis using handleCellClick_rejected_same by blast
qed


theorem rejected_touch_leaves_state_witness:
  "session (run rewind_trace) \<and>
   paintedPattern (run rewind_trace) ! nat 5 ! nat 5 = 0 \<and> currentStroke (run rewind_trace) \<noteq> [] \<and>
   \<not> areAdjacent (last (currentStroke (run rewind_trace))) \<lparr>px = 5, py = 5\<rparr> \<and>
   handleCellClick (run rewind_trace) 5 5 = Inr (rejected, run rewind_trace)"
proof -
  have a: "session (run rewind_trace)" unfolding rewind_trace_def by code_simp
  have b: "paintedPattern (run rewind_trace) ! nat 5 ! nat 5 = 0 \<and>
           currentStroke (run rewind_trace) \<noteq> [] \<and>
           \<not> areAdjacent (last (currentStroke (run rewind_trace))) \<lparr>px = 5, py = 5\<rparr>"
    unfolding rewind_trace_def by code_simp
  show ?thesis
    using a b rejected_touch_leaves_state [OF a, of 5 5] by blast
qed

section \<open>The generated levels\<close>

lemma levelShape_other:
  "levelNum \<noteq> 1 \<Longrightarrow> levelNum \<noteq> 2 \<Longrightarrow> levelNum \<noteq> 3 \<Longrightarrow> levelNum \<noteq> 4 \<Longrightarrow>
   levelShape levelNum = levelShape 5"
  by (simp add: levelShape_def)

lemma startOk_levels:
  "startOk (levelShape 1)" "startOk (levelShape 2)" "startOk (levelShape 3)"
  "startOk (levelShape 4)" "startOk (levelShape 5)"
  by code_simp+

lemma startOk_levelShape: "startOk (levelShape levelNum)"
  using startOk_levels levelShape_other [of levelNum] by metis

text \<open>
  Claim C10. For every level number, \<open>generateLevel\<close> builds a well-formed pattern and a
  start point that lies in the grid on a target cell of that pattern; so the pattern has
  at least one target cell. This covers the four numbered branches and the default one,
  where the two cells removed last are not the start point.
\<close>

theorem start_cell_is_target:
  "\<exists>pattern c. levelShape levelNum = (pattern, c) \<and>
     targetPattern (generateLevel s levelNum) = pattern \<and>
     startingPoint (generateLevel s levelNum) = Some c \<and>
     grid_ok pattern \<and>
     0 \<le> px c \<and> px c < int GRID_SIZE \<and> 0 \<le> py c \<and> py c < int GRID_SIZE \<and>
     pattern ! nat (py c) ! nat (px c) \<and>
     (\<exists>y < GRID_SIZE. \<exists>x < GRID_SIZE. pattern ! y ! x)"
proof -
  obtain pattern c where sh: "levelShape levelNum = (pattern, c)" by (cases "levelShape levelNum")
  have ok: "grid_ok pattern \<and> 0 \<le> px c \<and> px c < int GRID_SIZE \<and> 0 \<le> py c \<and>
            py c < int GRID_SIZE \<and> pattern ! nat (py c) ! nat (px c)"
    using startOk_levelShape [of levelNum] by (simp add: startOk_def sh)
  then have "nat (py c) < GRID_SIZE \<and> nat (px c) < GRID_SIZE \<and> pattern ! nat (py c) ! nat (px c)"
    by auto
  then have ex: "\<exists>y < GRID_SIZE. \<exists>x < GRID_SIZE. pattern ! y ! x" by blast
  show ?thesis
    using sh ok ex by (simp add: generateLevel_def)
qed

section \<open>Sequences of touches\<close>

lemma grid_ok_blank: "grid_ok (blank v)"
  by (simp add: grid_ok_def blank_def list_all_iff)

lemma blank_nth: "y < GRID_SIZE \<Longrightarrow> x < GRID_SIZE \<Longrightarrow> blank v ! y ! x = v"
  by (simp add: blank_def)

lemma newSession_session: "newSession s \<Longrightarrow> session s"
  by (simp add: newSession_def session_iff grid_ok_blank paintedCellOk_def blank_nth)

lemma session_afterClick: "session s \<Longrightarrow> session (afterClick s x y)"
  using session_click [of s x y] by (auto simp: afterClick_def)

lemma afterClick_frame:
  "targetPattern (afterClick s x y) = targetPattern s \<and>
   startingPoint (afterClick s x y) = startingPoint s \<and>
   level (afterClick s x y) = level s \<and> levelEffects (afterClick s x y) = levelEffects s \<and>
   isCompleted (afterClick s x y) = isCompleted s \<and> isDrawing (afterClick s x y) = isDrawing s \<and>
   advanceTimers (afterClick s x y) = advanceTimers s"
  using handleCellClick_frame [of s x y]
  by (cases "handleCellClick s x y") (auto simp: afterClick_def)

lemma afterTouches_session: "session s \<Longrightarrow> session (afterTouches s cs)"
  unfolding afterTouches_def
  by (induction cs arbitrary: s) (auto simp: session_afterClick)

lemma afterTouches_frame:
  "targetPattern (afterTouches s cs) = targetPattern s \<and>
   startingPoint (afterTouches s cs) = startingPoint s"
  unfolding afterTouches_def
  by (induction cs arbitrary: s) (auto simp: afterClick_frame)

lemma session_orders_dense:
  assumes s: "session s"
  shows "{v. v > 0 \<and> (\<exists>y < GRID_SIZE. \<exists>x < GRID_SIZE. paintedPattern s ! y ! x = v)}
           = {1..length (currentStroke s)}" (is "?L = ?R")
proof
  show "?L \<subseteq> ?R"
    using session_painted_le [OF s] by auto
  show "?R \<subseteq> ?L"
  proof
    fix v assume "v \<in> ?R"
    then have v: "v > 0" "v - 1 < length (currentStroke s)" by auto
    then have ok: "strokeCellOk s (v - 1)" using s by (simp add: session_iff)
    let ?c = "currentStroke s ! (v - 1)"
    have "nat (py ?c) < GRID_SIZE" "nat (px ?c) < GRID_SIZE"
         "paintedPattern s ! nat (py ?c) ! nat (px ?c) = v"
      using ok v by (simp_all add: strokeCellOk_def Let_def nat_less_iff)
    then show "v \<in> ?L" using v by blast
  qed
qed

lemma session_orders_unique:
  assumes s: "session s"
    and a: "y < GRID_SIZE" "x < GRID_SIZE" and b: "y' < GRID_SIZE" "x' < GRID_SIZE"
    and p: "paintedPattern s ! y ! x > 0" and e: "paintedPattern s ! y ! x = paintedPattern s ! y' ! x'"
  shows "y = y' \<and> x = x'"
proof -
  have "currentStroke s ! (paintedPattern s ! y ! x - 1) = \<lparr>px = int x, py = int y\<rparr>"
    using session_painted_le [OF s a p] by simp
  moreover have "currentStroke s ! (paintedPattern s ! y ! x - 1) = \<lparr>px = int x', py = int y'\<rparr>"
    using session_painted_le [OF s b] p e by simp
  ultimately show ?thesis by simp
qed

text \<open>
  Claim C4. From a level as \<open>generateLevel\<close> leaves it, with any pattern and any start
  point, after every sequence of touches: the positive paint orders on the grid are
  exactly the numbers from 1 to the length of the stroke, no two cells share a positive
  order, and the \<open>i\<close>-th cell of the stroke is the cell, and the only cell, of order
  \<open>i + 1\<close>.
\<close>

theorem paint_orders_dense:
  assumes "newSession s0"
  shows "let s = afterTouches s0 cs; stroke = currentStroke s; pp = paintedPattern s in
     grid_ok pp \<and>
     {v. v > 0 \<and> (\<exists>y < GRID_SIZE. \<exists>x < GRID_SIZE. pp ! y ! x = v)} = {1..length stroke} \<and>
     (\<forall>y < GRID_SIZE. \<forall>x < GRID_SIZE. \<forall>y' < GRID_SIZE. \<forall>x' < GRID_SIZE.
        pp ! y ! x > 0 \<and> pp ! y ! x = pp ! y' ! x' \<longrightarrow> y = y' \<and> x = x') \<and>
     (\<forall>i < length stroke.
        0 \<le> px (stroke ! i) \<and> px (stroke ! i) < int GRID_SIZE \<and>
        0 \<le> py (stroke ! i) \<and> py (stroke ! i) < int GRID_SIZE \<and>
        pp ! nat (py (stroke ! i)) ! nat (px (stroke ! i)) = i + 1 \<and>
        (\<forall>y < GRID_SIZE. \<forall>x < GRID_SIZE.
           pp ! y ! x = i + 1 \<longrightarrow> stroke ! i = \<lparr>px = int x, py = int y\<rparr>))"
proof -
  let ?s = "afterTouches s0 cs"
  have s: "session ?s" using assms by (simp add: newSession_session afterTouches_session)
  have g: "grid_ok (paintedPattern ?s)" using s by (simp add: session_def)
  note d = session_orders_dense [OF s]
  have u: "\<forall>y < GRID_SIZE. \<forall>x < GRID_SIZE. \<forall>y' < GRID_SIZE. \<forall>x' < GRID_SIZE.
        paintedPattern ?s ! y ! x > 0 \<and> paintedPattern ?s ! y ! x = paintedPattern ?s ! y' ! x'
          \<longrightarrow> y = y' \<and> x = x'"
    using session_orders_unique [OF s] by blast
  have i: "\<forall>i < length (currentStroke ?s).
        0 \<le> px (currentStroke ?s ! i) \<and> px (currentStroke ?s ! i) < int GRID_SIZE \<and>
        0 \<le> py (currentStroke ?s ! i) \<and> py (currentStroke ?s ! i) < int GRID_SIZE \<and>
        paintedPattern ?s ! nat (py (currentStroke ?s ! i)) ! nat (px (currentStroke ?s ! i)) = i + 1 \<and>
        (\<forall>y < GRID_SIZE. \<forall>x < GRID_SIZE.
           paintedPattern ?s ! y ! x = i + 1 \<longrightarrow> currentStroke ?s ! i = \<lparr>px = int x, py = int y\<rparr>)"
  proof (intro allI impI)
    fix i assume i: "i < length (currentStroke ?s)"
    then have ok: "strokeCellOk ?s i" using s by (simp add: session_iff)
    have "\<forall>y < GRID_SIZE. \<forall>x < GRID_SIZE.
           paintedPattern ?s ! y ! x = i + 1 \<longrightarrow> currentStroke ?s ! i = \<lparr>px = int x, py = int y\<rparr>"
      using session_painted_le [OF s] by fastforce
    then show "0 \<le> px (currentStroke ?s ! i) \<and> px (currentStroke ?s ! i) < int GRID_SIZE \<and>
        0 \<le> py (currentStroke ?s ! i) \<and> py (currentStroke ?s ! i) < int GRID_SIZE \<and>
        paintedPattern ?s ! nat (py (currentStroke ?s ! i)) ! nat (px (currentStroke ?s ! i)) = i + 1 \<and>
        (\<forall>y < GRID_SIZE. \<forall>x < GRID_SIZE.
           paintedPattern ?s ! y ! x = i + 1 \<longrightarrow> currentStroke ?s ! i = \<lparr>px = int x, py = int y\<rparr>)"
      using ok by (simp add: strokeCellOk_def Let_def)
  qed
  show ?thesis
    unfolding Let_def using g d u i by blast
qed

theorem paint_orders_dense_witness:
  "newSession (run [RunEffect]) \<and>
   length (currentStroke (afterTouches (run [RunEffect]) [(1, 1), (2, 2), (1, 2)])) = 2 \<and>
   {v. v > 0 \<and> (\<exists>y < GRID_SIZE. \<exists>x < GRID_SIZE.
        paintedPattern (afterTouches (run [RunEffect]) [(1, 1), (2, 2), (1, 2)]) ! y ! x = v)}
     = {1..2}"
proof -
  have h: "newSession (run [RunEffect])" by code_simp
  have l: "length (currentStroke (afterTouches (run [RunEffect]) [(1, 1), (2, 2), (1, 2)])) = 2"
    by code_simp
  show ?thesis
    using h l paint_orders_dense [OF h, of "[(1, 1), (2, 2), (1, 2)]"]
    by (simp add: Let_def)
qed

lemma areAdjacent_iff:
  "areAdjacent a b \<longleftrightarrow>
     (\<bar>px a - px b\<bar> = 1 \<and> py a = py b) \<or> (px a = px b \<and> \<bar>py a - py b\<bar> = 1)"
  by (auto simp: areAdjacent_def Let_def)

text \<open>
  Claim C5. From a level as \<open>generateLevel\<close> leaves it, after every sequence of touches:
  any two consecutive cells of the stroke pass \<open>areAdjacent\<close>, that is, they differ by
  exactly 1 in one coordinate and agree in the other; and a non-empty stroke begins at
  the level's start point.
\<close>

theorem stroke_is_path_from_start:
  assumes "newSession s0"
  shows "let stroke = currentStroke (afterTouches s0 cs) in
     (\<forall>i. Suc i < length stroke \<longrightarrow>
        areAdjacent (stroke ! i) (stroke ! Suc i) \<and>
        ((\<bar>px (stroke ! i) - px (stroke ! Suc i)\<bar> = 1 \<and> py (stroke ! i) = py (stroke ! Suc i)) \<or>
         (px (stroke ! i) = px (stroke ! Suc i) \<and> \<bar>py (stroke ! i) - py (stroke ! Suc i)\<bar> = 1))) \<and>
     (stroke \<noteq> [] \<longrightarrow> startingPoint s0 = Some (hd stroke))"
proof -
  let ?s = "afterTouches s0 cs"
  have s: "session ?s" using assms by (simp add: newSession_session afterTouches_session)
  note S = s [unfolded session_iff]
  have sp: "startingPoint ?s = startingPoint s0" by (simp add: afterTouches_frame)
  have a: "\<forall>i. Suc i < length (currentStroke ?s) \<longrightarrow>
             areAdjacent (currentStroke ?s ! i) (currentStroke ?s ! Suc i)"
    using S by blast
  have b: "currentStroke ?s \<noteq> [] \<longrightarrow> startingPoint s0 = Some (hd (currentStroke ?s))"
    using S sp by auto
  show ?thesis
    unfolding Let_def using a b areAdjacent_iff by blast
qed

theorem stroke_is_path_from_start_witness:
  "newSession (run [RunEffect]) \<and>
   currentStroke (afterTouches (run [RunEffect]) [(1, 1), (2, 2), (1, 2), (5, 5), (1, 3)]) \<noteq> [] \<and>
   length (currentStroke (afterTouches (run [RunEffect]) [(1, 1), (2, 2), (1, 2), (5, 5), (1, 3)])) = 3 \<and>
   areAdjacent
     (currentStroke (afterTouches (run [RunEffect]) [(1, 1), (2, 2), (1, 2), (5, 5), (1, 3)]) ! 1)
     (currentStroke (afterTouches (run [RunEffect]) [(1, 1), (2, 2), (1, 2), (5, 5), (1, 3)]) ! Suc 1) \<and>
   startingPoint (run [RunEffect]) =
     Some (hd (currentStroke (afterTouches (run [RunEffect]) [(1, 1), (2, 2), (1, 2), (5, 5), (1, 3)])))"
proof -
  have h: "newSession (run [RunEffect])" by code_simp
  have l: "length (currentStroke
      (afterTouches (run [RunEffect]) [(1, 1), (2, 2), (1, 2), (5, 5), (1, 3)])) = 3"
    by code_simp
  then have n: "currentStroke
      (afterTouches (run [RunEffect]) [(1, 1), (2, 2), (1, 2), (5, 5), (1, 3)]) \<noteq> []"
    by auto
  show ?thesis
    using h l n stroke_is_path_from_start [OF h, of "[(1, 1), (2, 2), (1, 2), (5, 5), (1, 3)]"]
    by (simp add: Let_def)
qed

section \<open>Every state of the component\<close>

lemma session_cong:
  assumes "targetPattern s' = targetPattern s" "paintedPattern s' = paintedPattern s"
    "currentStroke s' = currentStroke s" "startingPoint s' = startingPoint s"
  shows "session s' = session s"
proof -
  have a: "strokeCellOk s' = strokeCellOk s"
    by (intro ext) (simp add: strokeCellOk_def assms)
  have b: "paintedCellOk s' = paintedCellOk s"
    by (intro ext) (simp add: paintedCellOk_def assms)
  show ?thesis by (simp add: session_def a b assms)
qed

lemma generateLevel_fields:
  "targetPattern (generateLevel s l) = fst (levelShape l)"
  "paintedPattern (generateLevel s l) = blank 0"
  "startingPoint (generateLevel s l) = Some (snd (levelShape l))"
  "currentStroke (generateLevel s l) = []"
  "isCompleted (generateLevel s l) = False"
  "isDrawing (generateLevel s l) = False"
  "level (generateLevel s l) = level s"
  "levelEffects (generateLevel s l) = levelEffects s"
  "checkTimers (generateLevel s l) = checkTimers s"
  "advanceTimers (generateLevel s l) = advanceTimers s"
  by (simp_all add: generateLevel_def split: prod.splits)

lemma generateLevel_newSession: "newSession (generateLevel s l)"
  using startOk_levelShape [of l]
  by (simp add: newSession_def generateLevel_fields startOk_def split: prod.splits)

lemma pre_mount_afterClick: "pre_mount s \<Longrightarrow> afterClick s x y = s"
  by (simp add: afterClick_def handleCellClick_def lookup2_def pre_mount_def)

lemma step_inv:
  assumes "pre_mount s \<or> session s"
  shows "pre_mount (step s ev) \<or> session (step s ev)"
proof (cases ev)
  case (PointerDown x y)
  show ?thesis
  proof (cases "pre_mount s")
    case True
    then show ?thesis
      by (simp add: PointerDown handlePointerDown_def pre_mount_afterClick pre_mount_def)
  next
    case False
    then have "session (afterClick s x y)" using assms by (simp add: session_afterClick)
    moreover have "session ((afterClick s x y)\<lparr>isDrawing := True\<rparr>) = session (afterClick s x y)"
      by (rule session_cong) simp_all
    ultimately show ?thesis using assms
      by (simp add: PointerDown handlePointerDown_def)
  qed
next
  case (PointerMove x y)
  then show ?thesis
    using assms session_afterClick [of s x y]
    by (auto simp: handlePointerMove_def pre_mount_afterClick)
next
  case PointerUp
  have "session (s\<lparr>isDrawing := False\<rparr>) = session s" by (rule session_cong) simp_all
  then show ?thesis using assms by (auto simp: PointerUp handlePointerUp_def pre_mount_def)
next
  case ResetClick
  then show ?thesis
    by (simp add: resetLevel_def generateLevel_newSession newSession_session)
next
  case CheckTimeout
  have "session (checkTimeout s) = session s"
    by (rule session_cong)
      (simp_all add: checkTimeout_def split: list.splits sum.splits bool.splits prod.splits)
  moreover have "pre_mount (checkTimeout s) = pre_mount s"
    by (simp add: pre_mount_def checkTimeout_def
        split: list.splits sum.splits bool.splits prod.splits)
  ultimately show ?thesis using assms by (simp add: CheckTimeout)
next
  case AdvanceTimeout
  have "session (advanceTimeout s) = session s"
    by (rule session_cong) (simp_all add: advanceTimeout_def)
  moreover have "pre_mount (advanceTimeout s) = pre_mount s"
    by (simp add: pre_mount_def advanceTimeout_def)
  ultimately show ?thesis using assms by (simp add: AdvanceTimeout)
next
  case RunEffect
  then show ?thesis
    using assms
    by (simp add: runEffect_def generateLevel_newSession newSession_session split: list.splits)
qed

lemma foldl_step_inv:
  "pre_mount s \<or> session s \<Longrightarrow> pre_mount (foldl step s evs) \<or> session (foldl step s evs)"
  by (induction evs arbitrary: s) (simp_all add: step_inv)

lemma run_inv: "pre_mount (run evs) \<or> session (run evs)"
  unfolding run_def by (rule foldl_step_inv) (simp add: pre_mount_def init_state_def)

lemma step_levelInv:
  assumes "levelInv s"
  shows "levelInv (step s ev)"
proof (cases ev)
  case (PointerDown x y)
  then show ?thesis
    using assms by (auto simp: levelInv_def synced_def handlePointerDown_def afterClick_frame split: if_splits)
next
  case (PointerMove x y)
  then show ?thesis
    using assms by (auto simp: levelInv_def synced_def handlePointerMove_def afterClick_frame split: if_splits)
next
  case PointerUp
  then show ?thesis using assms by (auto simp: levelInv_def synced_def handlePointerUp_def split: if_splits)
next
  case ResetClick
  then show ?thesis
    using assms by (auto simp: levelInv_def synced_def resetLevel_def generateLevel_fields split: if_splits)
next
  case CheckTimeout
  then show ?thesis
    using assms
    by (auto simp: levelInv_def synced_def checkTimeout_def
        split: list.splits sum.splits bool.splits prod.splits if_splits)
next
  case AdvanceTimeout
  then show ?thesis using assms by (auto simp: levelInv_def synced_def advanceTimeout_def split: if_splits)
next
  case RunEffect
  then show ?thesis
    using assms
    by (auto simp: levelInv_def synced_def runEffect_def generateLevel_fields split: list.splits if_splits)
qed

lemma foldl_step_levelInv: "levelInv s \<Longrightarrow> levelInv (foldl step s evs)"
  by (induction evs arbitrary: s) (simp_all add: step_levelInv)

lemma run_levelInv: "levelInv (run evs)"
  unfolding run_def by (rule foldl_step_levelInv) (simp add: levelInv_def init_state_def)

section \<open>Reset\<close>

text \<open>
  Claim C8. In every state the component reaches in which no run of the level effect is
  pending (the level on screen is the current one), \<open>resetLevel\<close> leaves an empty stroke,
  a paint state that is 0 in every cell and \<open>isCompleted\<close> false, and the target pattern,
  the start point and the level after it are the ones before it.
\<close>

theorem reset_clears_and_keeps_pattern:
  assumes "levelEffects (run evs) = []"
  shows "currentStroke (resetLevel (run evs)) = [] \<and>
         paintedPattern (resetLevel (run evs)) = blank 0 \<and>
         (\<forall>y < GRID_SIZE. \<forall>x < GRID_SIZE. paintedPattern (resetLevel (run evs)) ! y ! x = 0) \<and>
         \<not> isCompleted (resetLevel (run evs)) \<and>
         targetPattern (resetLevel (run evs)) = targetPattern (run evs) \<and>
         startingPoint (resetLevel (run evs)) = startingPoint (run evs) \<and>
         level (resetLevel (run evs)) = level (run evs)"
proof -
  have "synced (run evs)" using run_levelInv [of evs] assms by (simp add: levelInv_def)
  then show ?thesis
    by (simp add: resetLevel_def generateLevel_fields synced_def blank_nth)
qed

theorem reset_clears_and_keeps_pattern_witness:
  "levelEffects (run rewind_trace) = [] \<and>
   currentStroke (run rewind_trace) \<noteq> [] \<and>
   currentStroke (resetLevel (run rewind_trace)) = [] \<and>
   paintedPattern (resetLevel (run rewind_trace)) = blank 0 \<and>
   targetPattern (resetLevel (run rewind_trace)) = targetPattern (run rewind_trace) \<and>
   startingPoint (resetLevel (run rewind_trace)) = startingPoint (run rewind_trace)"
proof -
  have h: "levelEffects (run rewind_trace) = []" unfolding rewind_trace_def by code_simp
  have n: "currentStroke (run rewind_trace) \<noteq> []" unfolding rewind_trace_def by code_simp
  show ?thesis
    using h n reset_clears_and_keeps_pattern [OF h] by simp
qed

section \<open>Completion\<close>

lemma checkCompletion_allTargetsPainted:
  "grid_ok tp \<Longrightarrow> grid_ok painted \<Longrightarrow>
   checkCompletion tp painted = Inr (allTargetsPainted tp painted)"
  by (simp add: checkCompletion_ok allTargetsPainted_def)

lemma session_click_grids:
  assumes "session s" "handleCellClick s x y = Inr (r, s')"
  shows "grid_ok (targetPattern s') \<and> grid_ok (paintedPattern s')"
  using session_click [of s x y] assms by (auto simp: session_def)

lemma handleCellClick_timers:
  "handleCellClick s x y = Inr (r, s') \<Longrightarrow>
   checkTimers s' =
     (if r = extended then checkTimers s @ [(targetPattern s', paintedPattern s')]
      else checkTimers s)"
  by (auto simp: handleCellClick_def Let_def split: if_splits sum.splits option.splits)

lemma checkTimeout_isCompleted:
  "checkTimers t = (tp, np) # rest \<Longrightarrow>
   isCompleted (checkTimeout t) \<longleftrightarrow> isCompleted t \<or> checkCompletion tp np = Inr True"
  by (auto simp: checkTimeout_def split: sum.splits bool.splits)

lemma step_raises_isCompleted:
  "isCompleted (step t ev) \<Longrightarrow> \<not> isCompleted t \<Longrightarrow> ev = CheckTimeout"
  by (cases ev)
    (auto simp: handlePointerDown_def handlePointerMove_def handlePointerUp_def
      resetLevel_def advanceTimeout_def runEffect_def afterClick_frame generateLevel_fields
      split: list.splits if_splits)

text \<open>
  Claim C2, as the code has it. No touch changes \<open>isCompleted\<close> itself. In a session, a
  touch that extends the stroke queues exactly one completion check, for the grids as
  that touch leaves them; a reverting or rejected touch queues none. On those grids
  \<open>checkCompletion\<close> returns true iff every target cell has a positive paint order, and
  its result is the same for any paint state that agrees on the target cells. When the
  queued check runs, 50 ms after the touch, \<open>isCompleted\<close> becomes true iff that test
  held on the grids the touch left (or the flag was true already); and no event other
  than a completion check turns \<open>isCompleted\<close> from false to true.
\<close>

theorem completion_iff_all_targets_painted:
  assumes s: "session s" and c: "handleCellClick s x y = Inr (r, s')"
  shows "(r = extended \<longrightarrow>
            checkTimers s' = checkTimers s @ [(targetPattern s', paintedPattern s')]) \<and>
         (r \<noteq> extended \<longrightarrow> checkTimers s' = checkTimers s) \<and>
         isCompleted s' = isCompleted s \<and>
         checkCompletion (targetPattern s') (paintedPattern s') =
           Inr (allTargetsPainted (targetPattern s') (paintedPattern s')) \<and>
         (\<forall>p. grid_ok p \<and>
              (\<forall>y < GRID_SIZE. \<forall>x < GRID_SIZE.
                 targetPattern s' ! y ! x \<longrightarrow> p ! y ! x = paintedPattern s' ! y ! x)
            \<longrightarrow> checkCompletion (targetPattern s') p =
                  checkCompletion (targetPattern s') (paintedPattern s')) \<and>
         (\<forall>t rest. checkTimers t = (targetPattern s', paintedPattern s') # rest
            \<longrightarrow> (isCompleted (checkTimeout t) \<longleftrightarrow>
                   isCompleted t \<or> allTargetsPainted (targetPattern s') (paintedPattern s'))) \<and>
         (\<forall>t ev. isCompleted (step t ev) \<and> \<not> isCompleted t \<longrightarrow> ev = CheckTimeout)"
proof -
  note g = session_click_grids [OF s c]
  have g1: "grid_ok (targetPattern s')" and g2: "grid_ok (paintedPattern s')" using g by simp_all
  note cc = checkCompletion_allTargetsPainted [OF g1 g2]
  have a: "r = extended \<longrightarrow>
            checkTimers s' = checkTimers s @ [(targetPattern s', paintedPattern s')]"
    and b: "r \<noteq> extended \<longrightarrow> checkTimers s' = checkTimers s"
    using handleCellClick_timers [OF c] by simp_all
  have f: "isCompleted s' = isCompleted s" using handleCellClick_frame [OF c] by simp
  have d: "\<forall>p. grid_ok p \<and>
              (\<forall>y < GRID_SIZE. \<forall>x < GRID_SIZE.
                 targetPattern s' ! y ! x \<longrightarrow> p ! y ! x = paintedPattern s' ! y ! x)
            \<longrightarrow> checkCompletion (targetPattern s') p =
                  checkCompletion (targetPattern s') (paintedPattern s')"
  proof (intro allI impI)
    fix p
    assume p: "grid_ok p \<and>
              (\<forall>y < GRID_SIZE. \<forall>x < GRID_SIZE.
                 targetPattern s' ! y ! x \<longrightarrow> p ! y ! x = paintedPattern s' ! y ! x)"
    then have "allTargetsPainted (targetPattern s') p =
               allTargetsPainted (targetPattern s') (paintedPattern s')"
      unfolding allTargetsPainted_def by metis
    then show "checkCompletion (targetPattern s') p =
                  checkCompletion (targetPattern s') (paintedPattern s')"
      using p by (simp add: cc checkCompletion_allTargetsPainted [OF g1])
  qed
  have e: "\<forall>t rest. checkTimers t = (targetPattern s', paintedPattern s') # rest
            \<longrightarrow> (isCompleted (checkTimeout t) \<longleftrightarrow>
                   isCompleted t \<or> allTargetsPainted (targetPattern s') (paintedPattern s'))"
    using checkTimeout_isCompleted cc by auto
  have h: "\<forall>t ev. isCompleted (step t ev) \<and> \<not> isCompleted t \<longrightarrow> ev = CheckTimeout"
    using step_raises_isCompleted by blast
  show ?thesis using a b f cc d e h by blast
qed

theorem completion_iff_all_targets_painted_witness:
  "session (run level1_eight) \<and>
   handleCellClick (run level1_eight) 5 5 = Inr (extended, afterClick (run level1_eight) 5 5) \<and>
   \<not> isCompleted (afterClick (run level1_eight) 5 5) \<and>
   allTargetsPainted (targetPattern (afterClick (run level1_eight) 5 5))
     (paintedPattern (afterClick (run level1_eight) 5 5)) \<and>
   checkTimers (afterClick (run level1_eight) 5 5) =
     checkTimers (run level1_eight) @
       [(targetPattern (afterClick (run level1_eight) 5 5),
         paintedPattern (afterClick (run level1_eight) 5 5))]"
proof -
  have h: "session (run level1_eight)" unfolding level1_eight_def by code_simp
  have c: "handleCellClick (run level1_eight) 5 5 =
             Inr (extended, afterClick (run level1_eight) 5 5)"
    unfolding level1_eight_def by code_simp
  have n: "\<not> isCompleted (afterClick (run level1_eight) 5 5)"
    unfolding level1_eight_def by code_simp
  have t: "checkCompletion (targetPattern (afterClick (run level1_eight) 5 5))
             (paintedPattern (afterClick (run level1_eight) 5 5)) = Inr True"
    unfolding level1_eight_def by code_simp
  show ?thesis
    using h c n t completion_iff_all_targets_painted [OF h c] by simp
qed

text \<open>
  Claim C2 as stated fails: completion is not signalled on the touch. After the touch on
  (5, 5) every target cell of level 1 is painted and \<open>isCompleted\<close> is still false; the
  signal comes from the check queued by that touch, whatever the grid is by then. When
  the reset button is pressed before that check runs, the check sets \<open>isCompleted\<close> on
  the fresh level: the stroke is empty, no cell is painted and the completion test on the
  grids of that state is false.
\<close>

theorem completion_signal_not_on_touch_counterexample:
  "checkCompletion (targetPattern (run completing_trace)) (paintedPattern (run completing_trace))
     = Inr True \<and>
   \<not> isCompleted (run completing_trace) \<and>
   isCompleted (run (completing_trace @ [ResetClick, CheckTimeout])) \<and>
   currentStroke (run (completing_trace @ [ResetClick, CheckTimeout])) = [] \<and>
   paintedPattern (run (completing_trace @ [ResetClick, CheckTimeout])) = blank 0 \<and>
   checkCompletion (targetPattern (run (completing_trace @ [ResetClick, CheckTimeout])))
     (paintedPattern (run (completing_trace @ [ResetClick, CheckTimeout]))) = Inr False"
  unfolding completing_trace_def by code_simp

text \<open>
  Claim C7, as the code has it. Once \<open>isCompleted\<close> is set, \<open>handlePointerDown\<close> and
  \<open>handlePointerMove\<close> return at once for every cell: the whole state, and with it the
  stroke, the paint state and the flag, is unchanged. The flag is cleared again by
  \<open>resetLevel\<close> and by the \<open>generateLevel\<close> of a level advance. The flag is set by the
  completion check 50 ms after the completing touch, not by that touch.
\<close>

theorem completed_ignores_touches:
  assumes "isCompleted s"
  shows "handlePointerDown s x y = s \<and> handlePointerMove s x y = s \<and>
         \<not> isCompleted (resetLevel s) \<and> \<not> isCompleted (generateLevel s l)"
  using assms
  by (simp add: handlePointerDown_def handlePointerMove_def resetLevel_def generateLevel_fields)

theorem completed_ignores_touches_witness:
  "isCompleted (run (completing_trace @ [CheckTimeout])) \<and>
   handlePointerDown (run (completing_trace @ [CheckTimeout])) 4 5 =
     run (completing_trace @ [CheckTimeout]) \<and>
   handlePointerMove (run (completing_trace @ [CheckTimeout])) 4 5 =
     run (completing_trace @ [CheckTimeout])"
proof -
  have h: "isCompleted (run (completing_trace @ [CheckTimeout]))"
    unfolding completing_trace_def by code_simp
  show ?thesis
    using h completed_ignores_touches [OF h, of 4 5] by simp
qed

text \<open>
  Claim C7 as stated fails: a touch delivered after the completing touch and before its
  completion check runs is handled as any other. After the touch on (5, 5) every target
  cell of level 1 is painted; a pointer move back onto (4, 5) then reverts the stroke to
  eight cells and clears (5, 5); the pending check still sets \<open>isCompleted\<close>, on a grid
  that is no longer covered.
\<close>

theorem touch_after_completing_touch_counterexample:
  "checkCompletion (targetPattern (run completing_trace)) (paintedPattern (run completing_trace))
     = Inr True \<and>
   length (currentStroke (run completing_trace)) = 9 \<and>
   length (currentStroke (run (completing_trace @ [PointerMove 4 5]))) = 8 \<and>
   paintedPattern (run (completing_trace @ [PointerMove 4 5])) ! 5 ! 5 = 0 \<and>
   paintedPattern (run (completing_trace @ [PointerMove 4 5])) \<noteq>
     paintedPattern (run completing_trace) \<and>
   isCompleted (run (completing_trace @ [PointerMove 4 5, CheckTimeout])) \<and>
   checkCompletion (targetPattern (run (completing_trace @ [PointerMove 4 5, CheckTimeout])))
     (paintedPattern (run (completing_trace @ [PointerMove 4 5, CheckTimeout]))) = Inr False"
  unfolding completing_trace_def by code_simp

end
